theory Spec2Isabelle
  imports Main
begin

section \<open>Text primitives of the host language\<close>

text \<open>
  The loader in \<^verbatim>\<open>src/prism/pdf_loader.py\<close> works on Python strings. A string is modelled as
  a \<^typ>\<open>string\<close> whose characters are the code points 0 to 255; the predicates below are
  Python's on that range. Code points above 255 are outside the model, so the two dashes
  U+2013 and U+2014 that some character classes of the source list can never occur in a
  modelled line and are left out of those classes.
\<close>

definition isspace :: "char \<Rightarrow> bool" where
  \<comment> \<open>\<^verbatim>\<open>str.isspace\<close>, which is also the class \<^verbatim>\<open>\s\<close> and what \<^verbatim>\<open>str.strip\<close> removes\<close>
  "isspace c = (let n = (of_char c :: nat) in
     (9 \<le> n \<and> n \<le> 13) \<or> (28 \<le> n \<and> n \<le> 32) \<or> n = 133 \<or> n = 160)"

definition isdigit :: "char \<Rightarrow> bool" where
  \<comment> \<open>the class \<^verbatim>\<open>\d\<close> and the range \<^verbatim>\<open>[0-9]\<close>\<close>
  "isdigit c = (let n = (of_char c :: nat) in 48 \<le> n \<and> n \<le> 57)"

definition isupper_az :: "char \<Rightarrow> bool" where
  \<comment> \<open>the range \<^verbatim>\<open>[A-Z]\<close>\<close>
  "isupper_az c = (let n = (of_char c :: nat) in 65 \<le> n \<and> n \<le> 90)"

definition islower_az :: "char \<Rightarrow> bool" where
  \<comment> \<open>the range \<^verbatim>\<open>[a-z]\<close>\<close>
  "islower_az c = (let n = (of_char c :: nat) in 97 \<le> n \<and> n \<le> 122)"

definition isword :: "char \<Rightarrow> bool" where
  \<comment> \<open>the class \<^verbatim>\<open>\w\<close>: alphanumeric characters and the underscore\<close>
  "isword c = (let n = (of_char c :: nat) in
     isdigit c \<or> isupper_az c \<or> islower_az c \<or> n = 95 \<or>
     n = 170 \<or> n = 178 \<or> n = 179 \<or> n = 181 \<or> n = 185 \<or> n = 186 \<or>
     (188 \<le> n \<and> n \<le> 190) \<or> (192 \<le> n \<and> n \<le> 214) \<or>
     (216 \<le> n \<and> n \<le> 246) \<or> (248 \<le> n \<and> n \<le> 255))"

definition lower_char :: "char \<Rightarrow> char" where
  "lower_char c = (let n = (of_char c :: nat) in
     if (65 \<le> n \<and> n \<le> 90) \<or> (192 \<le> n \<and> n \<le> 222 \<and> n \<noteq> 215)
     then char_of (n + 32) else c)"

definition lower :: "string \<Rightarrow> string" where
  \<comment> \<open>\<^verbatim>\<open>str.lower\<close>\<close>
  "lower s = map lower_char s"

definition strip :: "string \<Rightarrow> string" where
  \<comment> \<open>\<^verbatim>\<open>str.strip\<close> with no argument\<close>
  "strip s = rev (dropWhile isspace (rev (dropWhile isspace s)))"

fun join :: "string \<Rightarrow> string list \<Rightarrow> string" where
  \<comment> \<open>\<^verbatim>\<open>sep.join(xs)\<close>\<close>
  "join sep [] = []"
| "join sep [x] = x"
| "join sep (x # y # ys) = x @ sep @ join sep (y # ys)"

definition islinebreak :: "char \<Rightarrow> bool" where
  \<comment> \<open>the line boundaries of \<^verbatim>\<open>str.splitlines\<close>\<close>
  "islinebreak c = (let n = (of_char c :: nat) in
     (10 \<le> n \<and> n \<le> 13) \<or> (28 \<le> n \<and> n \<le> 30) \<or> n = 133)"

fun splitlines_from :: "string \<Rightarrow> string \<Rightarrow> string list" where
  \<comment> \<open>the first argument is the line read so far\<close>
  "splitlines_from cur [] = (if cur = [] then [] else [cur])"
| "splitlines_from cur [c] = (if islinebreak c then [cur] else [cur @ [c]])"
| "splitlines_from cur (c # d # cs) =
     (if c = CHR 0x0D \<and> d = CHR 0x0A then cur # splitlines_from [] cs
      else if islinebreak c then cur # splitlines_from [] (d # cs)
      else splitlines_from (cur @ [c]) (d # cs))"

definition splitlines :: "string \<Rightarrow> string list" where
  \<comment> \<open>\<^verbatim>\<open>str.splitlines\<close>: no empty last line after a final line break\<close>
  "splitlines s = splitlines_from [] s"

fun startswith :: "string \<Rightarrow> string \<Rightarrow> bool" where
  \<comment> \<open>\<^verbatim>\<open>s.startswith(p)\<close>, the pattern first\<close>
  "startswith [] s = True"
| "startswith (p # ps) [] = False"
| "startswith (p # ps) (c # cs) = (p = c \<and> startswith ps cs)"

fun contains :: "string \<Rightarrow> string \<Rightarrow> bool" where
  \<comment> \<open>\<^verbatim>\<open>p in s\<close> on strings, the pattern first\<close>
  "contains p [] = (p = [])"
| "contains p (c # cs) = (startswith p (c # cs) \<or> contains p cs)"

definition slice :: "nat \<Rightarrow> nat \<Rightarrow> 'a list \<Rightarrow> 'a list" where
  \<comment> \<open>\<^verbatim>\<open>xs[lo:hi]\<close> for indices that are not negative\<close>
  "slice lo hi xs = take (hi - lo) (drop lo xs)"


section \<open>Regular expressions\<close>

text \<open>
  The patterns of the source use character classes, greedy repetition of a class, optional
  groups, alternation, the anchors \<^verbatim>\<open>^\<close> and \<^verbatim>\<open>$\<close> and the word boundary \<^verbatim>\<open>\b\<close>.
  \<open>ends r s i\<close> lists the positions where a match of \<open>r\<close> that starts at position \<open>i\<close> of
  \<open>s\<close> can end, in the order in which Python's backtracking matcher tries them: the first
  element is the end of the match Python reports.
\<close>

datatype rx =
    Eps
  | Cls "char \<Rightarrow> bool"
  | Rep "char \<Rightarrow> bool" nat "nat option"
  | Seq rx rx
  | Alt rx rx
  | Opt rx
  | Bol
  | Eol
  | Wordb

fun ends :: "rx \<Rightarrow> string \<Rightarrow> nat \<Rightarrow> nat list" where
  "ends Eps s i = [i]"
| "ends (Cls p) s i = (if i < length s \<and> p (s ! i) then [Suc i] else [])"
| "ends (Rep p lo hi) s i =
     (let k = length (takeWhile p (drop i s));
          m = (case hi of None \<Rightarrow> k | Some h \<Rightarrow> min k h)
      in if m < lo then [] else rev [i + lo ..< Suc (i + m)])"
| "ends (Seq a b) s i = concat (map (ends b s) (ends a s i))"
| "ends (Alt a b) s i = ends a s i @ ends b s i"
| "ends (Opt a) s i = ends a s i @ [i]"
| "ends Bol s i = (if i = 0 then [i] else [])"
| "ends Eol s i =
     (if i = length s \<or> (Suc i = length s \<and> s ! i = CHR 0x0A) then [i] else [])"
| "ends Wordb s i =
     (if (0 < i \<and> isword (s ! (i - 1))) \<noteq> (i < length s \<and> isword (s ! i))
      then [i] else [])"

definition re_match :: "rx \<Rightarrow> string \<Rightarrow> bool" where
  \<comment> \<open>\<^verbatim>\<open>re.match(pat, s)\<close> read as a truth value\<close>
  "re_match r s = (ends r s 0 \<noteq> [])"

fun search_from :: "rx \<Rightarrow> string \<Rightarrow> nat \<Rightarrow> nat \<Rightarrow> (nat \<times> nat) option" where
  \<comment> \<open>tries the start positions \<open>i, i + 1, ...\<close>; the second argument counts those left\<close>
  "search_from r s i 0 = None"
| "search_from r s i (Suc n) =
     (case ends r s i of [] \<Rightarrow> search_from r s (Suc i) n | e # _ \<Rightarrow> Some (i, e))"

definition re_search :: "rx \<Rightarrow> string \<Rightarrow> (nat \<times> nat) option" where
  \<comment> \<open>\<^verbatim>\<open>re.search(pat, s)\<close>: start and end of the leftmost match\<close>
  "re_search r s = search_from r s 0 (Suc (length s))"

fun first_group :: "rx \<Rightarrow> string \<Rightarrow> nat list \<Rightarrow> (nat \<times> nat) option" where
  \<comment> \<open>given the ends of the part before a final group, the span of the group\<close>
  "first_group g s [] = None"
| "first_group g s (p # ps) =
     (case ends g s p of [] \<Rightarrow> first_group g s ps | e # _ \<Rightarrow> Some (p, e))"

fun search_group_from :: "rx \<Rightarrow> rx \<Rightarrow> string \<Rightarrow> nat \<Rightarrow> nat \<Rightarrow> string option" where
  "search_group_from pre g s i 0 = None"
| "search_group_from pre g s i (Suc n) =
     (case first_group g s (ends pre s i) of
        None \<Rightarrow> search_group_from pre g s (Suc i) n
      | Some (p, e) \<Rightarrow> Some (slice p e s))"

definition re_match_group :: "rx \<Rightarrow> rx \<Rightarrow> string \<Rightarrow> string option" where
  \<comment> \<open>\<^verbatim>\<open>re.match\<close> of a pattern \<open>pre(g)\<close> that ends in its only group: \<^verbatim>\<open>group(1)\<close>\<close>
  "re_match_group pre g s = map_option (\<lambda>(p, e). slice p e s) (first_group g s (ends pre s 0))"

definition re_search_group :: "rx \<Rightarrow> rx \<Rightarrow> string \<Rightarrow> string option" where
  \<comment> \<open>\<^verbatim>\<open>re.search\<close> of a pattern \<open>pre(g)\<close> that ends in its only group: \<^verbatim>\<open>group(1)\<close>\<close>
  "re_search_group pre g s = search_group_from pre g s 0 (Suc (length s))"

definition re_sub_eq_space :: "string \<Rightarrow> string" where
  \<comment> \<open>\<^verbatim>\<open>re.sub(r"[=\s]+", "", s)\<close>: deleting every run deletes every such character\<close>
  "re_sub_eq_space s = filter (\<lambda>c. \<not> (c = CHR ''='' \<or> isspace c)) s"

subsection \<open>Pattern building blocks\<close>

definition ch :: "char \<Rightarrow> rx" where
  "ch c = Cls (\<lambda>x. x = c)"

definition ch_i :: "char \<Rightarrow> rx" where
  \<comment> \<open>a literal character under \<^verbatim>\<open>re.IGNORECASE\<close>\<close>
  "ch_i c = Cls (\<lambda>x. lower_char x = lower_char c)"

definition lit :: "string \<Rightarrow> rx" where
  "lit w = foldr (\<lambda>c r. Seq (ch c) r) w Eps"

definition lit_i :: "string \<Rightarrow> rx" where
  "lit_i w = foldr (\<lambda>c r. Seq (ch_i c) r) w Eps"

definition seqs :: "rx list \<Rightarrow> rx" where
  "seqs rs = foldr Seq rs Eps"

definition alts :: "rx \<Rightarrow> rx list \<Rightarrow> rx" where
  "alts r rs = foldl Alt r rs"

definition star :: "(char \<Rightarrow> bool) \<Rightarrow> rx" where
  "star p = Rep p 0 None"

definition plus :: "(char \<Rightarrow> bool) \<Rightarrow> rx" where
  "plus p = Rep p 1 None"

definition anychar :: "char \<Rightarrow> bool" where
  \<comment> \<open>the dot: any character but the newline\<close>
  "anychar c = (c \<noteq> CHR 0x0A)"

definition one_of :: "string \<Rightarrow> char \<Rightarrow> bool" where
  "one_of w c = (c \<in> set w)"


section \<open>The boundary locator\<close>

fun find_index_from :: "rx list \<Rightarrow> nat \<Rightarrow> string list \<Rightarrow> nat option" where
  \<comment> \<open>the loop of \<^verbatim>\<open>find_index\<close>, the second argument is \<^verbatim>\<open>idx\<close>\<close>
  "find_index_from patterns idx [] = None"
| "find_index_from patterns idx (ln # lines) =
     (let raw = lower ln; simp = re_sub_eq_space (lower ln)
      in if list_ex (\<lambda>pat. re_match pat raw \<or> re_match pat simp) patterns
         then Some idx
         else find_index_from patterns (Suc idx) lines)"

definition find_index :: "rx list \<Rightarrow> string list \<Rightarrow> nat option" where
  "find_index patterns lines = find_index_from patterns 0 lines"


subsection \<open>The pattern tables\<close>

definition eqsign :: "char \<Rightarrow> bool" where
  "eqsign c = (c = CHR ''='')"

text \<open>
  In the order of the source:
  \<^verbatim>\<open>^abstract[:\s]*$\<close>
  \<^verbatim>\<open>^abstract[\s\u2013\u2014-].+\<close>
  \<^verbatim>\<open>^summary[:\s]*$\<close>
  \<^verbatim>\<open>^={2,}\s*abstract\s*={2,}$\<close>
  \<^verbatim>\<open>^abstract\s*[:\-\u2013\u2014]\s*.+$\<close>
  \<^verbatim>\<open>^summary\s*[:\-\u2013\u2014]\s*.+$\<close>
  \<^verbatim>\<open>^#+\s*abstract\s*$\<close>
  \<^verbatim>\<open>^\*\*abstract\*\*$\<close>
\<close>

definition abstract_patterns :: "rx list" where
  "abstract_patterns =
    [ seqs [Bol, lit ''abstract'', star (\<lambda>c. c = CHR '':'' \<or> isspace c), Eol],
      seqs [Bol, lit ''abstract'', Cls (\<lambda>c. isspace c \<or> c = CHR ''-''), plus anychar],
      seqs [Bol, lit ''summary'', star (\<lambda>c. c = CHR '':'' \<or> isspace c), Eol],
      seqs [Bol, Rep eqsign 2 None, star isspace, lit ''abstract'', star isspace,
            Rep eqsign 2 None, Eol],
      seqs [Bol, lit ''abstract'', star isspace, Cls (one_of '':-''), star isspace,
            plus anychar, Eol],
      seqs [Bol, lit ''summary'', star isspace, Cls (one_of '':-''), star isspace,
            plus anychar, Eol],
      seqs [Bol, plus (\<lambda>c. c = CHR ''#''), star isspace, lit ''abstract'', star isspace, Eol],
      seqs [Bol, lit ''**abstract**'', Eol] ]"

text \<open>
  In the order of the source:
  \<^verbatim>\<open>^[0-9]+\.?\s*introduction$\<close>
  \<^verbatim>\<open>^[ivxlcdm]+\.?\s*introduction$\<close>
  \<^verbatim>\<open>^section\s*[0-9]+[:\.]?\s*introduction$\<close>
  \<^verbatim>\<open>^introduction$\<close>
  \<^verbatim>\<open>^background$\<close>
  \<^verbatim>\<open>^={2,}\s*introduction\s*={2,}$\<close>
\<close>

definition intro_patterns :: "rx list" where
  "intro_patterns =
    [ seqs [Bol, plus isdigit, Opt (ch CHR ''.''), star isspace, lit ''introduction'', Eol],
      seqs [Bol, plus (one_of ''ivxlcdm''), Opt (ch CHR ''.''), star isspace,
            lit ''introduction'', Eol],
      seqs [Bol, lit ''section'', star isspace, plus isdigit, Opt (Cls (one_of '':.'')),
            star isspace, lit ''introduction'', Eol],
      seqs [Bol, lit ''introduction'', Eol],
      seqs [Bol, lit ''background'', Eol],
      seqs [Bol, Rep eqsign 2 None, star isspace, lit ''introduction'', star isspace,
            Rep eqsign 2 None, Eol] ]"

text \<open>
  The end-matter patterns, in the order of the source; those not listed here are a
  word between \<^verbatim>\<open>^\<close> and \<^verbatim>\<open>$\<close>. The others:
  \<^verbatim>\<open>^literature\s+cited$\<close>
  \<^verbatim>\<open>^works\s+cited$\<close>
  \<^verbatim>\<open>^acknowledg(?:ements)?$\<close>
  \<^verbatim>\<open>^data\s+availability$\<close>
  \<^verbatim>\<open>^conflicts\s+of\s+interest$\<close>
  \<^verbatim>\<open>^={2,}\s*(references|bibliography|acknowledg|appendix|supplementary)\s*={2,}$\<close>
\<close>

definition end_patterns :: "rx list" where
  "end_patterns =
    [ seqs [Bol, lit ''references'', Eol],
      seqs [Bol, lit ''reference'', Eol],
      seqs [Bol, lit ''literature'', plus isspace, lit ''cited'', Eol],
      seqs [Bol, lit ''works'', plus isspace, lit ''cited'', Eol],
      seqs [Bol, lit ''bibliography'', Eol],
      seqs [Bol, lit ''acknowledg'', Opt (lit ''ements''), Eol],
      seqs [Bol, lit ''appendix'', Eol],
      seqs [Bol, lit ''supplementary'', Eol],
      seqs [Bol, lit ''data'', plus isspace, lit ''availability'', Eol],
      seqs [Bol, lit ''conflicts'', plus isspace, lit ''of'', plus isspace, lit ''interest'', Eol],
      seqs [Bol, lit ''funding'', Eol],
      seqs [Bol, Rep eqsign 2 None, star isspace,
            alts (lit ''references'')
              [lit ''bibliography'', lit ''acknowledg'', lit ''appendix'', lit ''supplementary''],
            star isspace, Rep eqsign 2 None, Eol] ]"

text \<open>
  In the order of the source:
  \<^verbatim>\<open>^keywords?\b\<close>
  \<^verbatim>\<open>^author\s+keywords?\b\<close>
  \<^verbatim>\<open>^key\s*words?\b\<close>
  \<^verbatim>\<open>^index\s+terms?\b\<close>
  \<^verbatim>\<open>^jel\s+classification\b\<close>
  \<^verbatim>\<open>^msc\s+classification\b\<close>
\<close>

definition keywords_patterns :: "rx list" where
  "keywords_patterns =
    [ seqs [Bol, lit ''keyword'', Opt (ch CHR ''s''), Wordb],
      seqs [Bol, lit ''author'', plus isspace, lit ''keyword'', Opt (ch CHR ''s''), Wordb],
      seqs [Bol, lit ''key'', star isspace, lit ''word'', Opt (ch CHR ''s''), Wordb],
      seqs [Bol, lit ''index'', plus isspace, lit ''term'', Opt (ch CHR ''s''), Wordb],
      seqs [Bol, lit ''jel'', plus isspace, lit ''classification'', Wordb],
      seqs [Bol, lit ''msc'', plus isspace, lit ''classification'', Wordb] ]"

text \<open>
  In the order of the source:
  \<^verbatim>\<open>^[0-9]+\s*[\.)]?\s+[A-Z].*\<close>
  \<^verbatim>\<open>^(?:[ivxlcdm]+)\s*[\.)]?\s+[A-Z].*\<close>
  \<^verbatim>\<open>^[A-Z][A-Z\s]{3,}$\<close>
\<close>

definition numbered_patterns :: "rx list" where
  "numbered_patterns =
    [ seqs [Bol, plus isdigit, star isspace, Opt (Cls (one_of ''.)'')), plus isspace,
            Cls isupper_az, star anychar],
      seqs [Bol, plus (one_of ''ivxlcdm''), star isspace, Opt (Cls (one_of ''.)'')),
            plus isspace, Cls isupper_az, star anychar],
      seqs [Bol, Cls isupper_az, Rep (\<lambda>c. isupper_az c \<or> isspace c) 3 None, Eol] ]"

text \<open>
  The inline pattern \<^verbatim>\<open>(?i)abstract(?:[\s\u2013\u2014-]+)(.*)\<close>, as the part before its
  group and the group.
\<close>

definition inline_prefix :: rx where
  "inline_prefix = seqs [lit_i ''abstract'', plus (\<lambda>c. isspace c \<or> c = CHR ''-'')]"

definition inline_group :: rx where
  "inline_group = star anychar"


section \<open>The section partitioner\<close>

datatype py_error = IndexError | ValueError | RuntimeError | DocumentError

definition first_break :: "nat option \<Rightarrow> nat option \<Rightarrow> nat option" where
  \<comment> \<open>the minimum of the indices that are present\<close>
  "first_break abstract_idx intro_idx =
     (case (abstract_idx, intro_idx) of
        (None, None) \<Rightarrow> None
      | (Some a, None) \<Rightarrow> Some a
      | (None, Some i) \<Rightarrow> Some i
      | (Some a, Some i) \<Rightarrow> Some (min a i))"

definition pre_intro_lines :: "string list \<Rightarrow> nat option \<Rightarrow> nat option \<Rightarrow> string list" where
  "pre_intro_lines stripped abstract_idx intro_idx =
     (case first_break abstract_idx intro_idx of
        Some b \<Rightarrow> take b stripped
      | None \<Rightarrow> take 50 stripped)"

definition first_after :: "string list \<Rightarrow> nat \<Rightarrow> rx list \<Rightarrow> nat option" where
  "first_after stripped start patterns =
     (case find_index patterns (drop (start + 1) stripped) of
        Some j \<Rightarrow> Some (start + 1 + j)
      | None \<Rightarrow> None)"

definition keywords_idx :: "string list \<Rightarrow> nat option" where
  "keywords_idx stripped = find_index keywords_patterns stripped"

definition later_than :: "nat option \<Rightarrow> nat \<Rightarrow> nat option" where
  \<comment> \<open>\<^verbatim>\<open>x if (x is not None and x > abstract_idx) else None\<close>\<close>
  "later_than x a = (case x of Some k \<Rightarrow> if k > a then Some k else None | None \<Rightarrow> None)"

definition kw_after :: "string list \<Rightarrow> nat \<Rightarrow> nat option" where
  "kw_after stripped a = later_than (keywords_idx stripped) a"

definition intro_after :: "nat option \<Rightarrow> nat \<Rightarrow> nat option" where
  "intro_after intro_idx a = later_than intro_idx a"

definition numbered_after :: "string list \<Rightarrow> nat \<Rightarrow> nat option \<Rightarrow> nat option" where
  "numbered_after stripped a intro_idx =
     (if kw_after stripped a = None \<and> intro_after intro_idx a = None
      then first_after stripped a numbered_patterns
      else None)"

definition candidates :: "string list \<Rightarrow> nat \<Rightarrow> nat option \<Rightarrow> nat list" where
  "candidates stripped a intro_idx =
     List.map_filter (\<lambda>c. c)
       [kw_after stripped a, intro_after intro_idx a, numbered_after stripped a intro_idx,
        Some (length stripped)]"

definition abs_end :: "string list \<Rightarrow> nat \<Rightarrow> nat option \<Rightarrow> nat" where
  "abs_end stripped a intro_idx = min_list (candidates stripped a intro_idx)"

definition abstract_lines ::
  "string list \<Rightarrow> nat option \<Rightarrow> nat option \<Rightarrow> py_error + string list" where
  "abstract_lines stripped abstract_idx intro_idx =
     (case abstract_idx of
        Some a \<Rightarrow>
          if a < length stripped then
            (case re_match_group inline_prefix inline_group (stripped ! a) of
               Some g \<Rightarrow> Inr (strip g # slice (a + 1) (abs_end stripped a intro_idx) stripped)
             | None \<Rightarrow> Inr (slice (a + 1) (abs_end stripped a intro_idx) stripped))
          else Inl IndexError
      | None \<Rightarrow>
          (case intro_idx of
             Some i \<Rightarrow> if i > 5 then Inr (take i stripped) else Inr []
           | None \<Rightarrow> Inr []))"

definition body_start :: "nat option \<Rightarrow> nat option \<Rightarrow> nat" where
  "body_start abstract_idx intro_idx =
     (case intro_idx of
        Some i \<Rightarrow> i
      | None \<Rightarrow> (case abstract_idx of Some a \<Rightarrow> a + 1 | None \<Rightarrow> 0))"

definition body_end :: "string list \<Rightarrow> nat option \<Rightarrow> nat" where
  "body_end stripped end_idx = (case end_idx of Some e \<Rightarrow> e | None \<Rightarrow> length stripped)"

definition main_body_lines ::
  "string list \<Rightarrow> nat option \<Rightarrow> nat option \<Rightarrow> nat option \<Rightarrow> string list" where
  "main_body_lines stripped abstract_idx intro_idx end_idx =
     slice (body_start abstract_idx intro_idx) (body_end stripped end_idx) stripped"

definition end_matter_lines :: "string list \<Rightarrow> nat option \<Rightarrow> string list" where
  "end_matter_lines stripped end_idx =
     (case end_idx of Some e \<Rightarrow> drop (e + 1) stripped | None \<Rightarrow> [])"

definition extract_sections ::
  "string list \<Rightarrow> nat option \<Rightarrow> nat option \<Rightarrow> nat option \<Rightarrow>
   py_error + (string list \<times> string list \<times> string list \<times> string list)" where
  \<comment> \<open>the only failure is the read of the heading line at an index past the last line\<close>
  "extract_sections stripped abstract_idx intro_idx end_idx =
     (case abstract_lines stripped abstract_idx intro_idx of
        Inl err \<Rightarrow> Inl err
      | Inr abstract \<Rightarrow>
          Inr (pre_intro_lines stripped abstract_idx intro_idx,
               abstract,
               main_body_lines stripped abstract_idx intro_idx end_idx,
               end_matter_lines stripped end_idx))"


section \<open>The metadata extractor\<close>

text \<open>
  What the loader reads from an opened document: the metadata properties, and for each page
  its text and its link annotations. Reading a page may fail, which the loader does not
  catch for the text and does catch for the links. A link is its \<^verbatim>\<open>uri\<close> entry, if it
  has one. An absent metadata dictionary and an empty one are both the empty map.
\<close>

record page =
  page_get_text :: "py_error + string"
  page_get_links :: "py_error + string option list"

record document =
  doc_metadata :: "string \<rightharpoonup> string"
  doc_pages :: "page list"

definition nl :: string where
  "nl = [CHR 0x0A]"

text \<open>
  The patterns of the extractor:
  \<^verbatim>\<open>(20\d{2}|19\d{2})\<close> for the year,
  \<^verbatim>\<open>publication in ([A-Za-z &()\.\-]+)\<close> for the outlet, ignoring case,
  \<^verbatim>\<open>\b10\.\d{4,9}/[-._;()/:A-Za-z0-9]+\b\<close> for the DOI,
  \<^verbatim>\<open>arxiv[:\s]*(\d{4}\.\d{4,5}(?:v\d+)?)\<close> for the arXiv identifier, ignoring case.
  A pattern with a group is given as the part before the group and the group.
\<close>

definition year_pattern :: rx where
  "year_pattern =
     Alt (seqs [lit ''20'', Rep isdigit 2 (Some 2)]) (seqs [lit ''19'', Rep isdigit 2 (Some 2)])"

definition outlet_prefix :: rx where
  "outlet_prefix = lit_i ''publication in ''"

definition outlet_group :: rx where
  "outlet_group = plus (\<lambda>c. isupper_az c \<or> islower_az c \<or> one_of '' &().-'' c)"

definition doi_pattern :: rx where
  "doi_pattern =
     seqs [Wordb, lit ''10.'', Rep isdigit 4 (Some 9), ch CHR ''/'',
           plus (\<lambda>c. one_of ''-._;()/:'' c \<or> isupper_az c \<or> islower_az c \<or> isdigit c),
           Wordb]"

definition arxiv_prefix :: rx where
  "arxiv_prefix = seqs [lit_i ''arxiv'', star (\<lambda>c. c = CHR '':'' \<or> isspace c)]"

definition arxiv_group :: rx where
  "arxiv_group =
     seqs [Rep isdigit 4 (Some 4), ch CHR ''.'', Rep isdigit 4 (Some 5),
           Opt (seqs [ch_i CHR ''v'', plus isdigit])]"

definition year_of :: "string \<Rightarrow> string option" where
  "year_of val =
     (if val = [] then None
      else map_option (\<lambda>(i, j). slice i j val) (re_search year_pattern val))"

fun year_lines :: "(string \<rightharpoonup> string) \<Rightarrow> string list \<Rightarrow> string list" where
  \<comment> \<open>the loop over the property names, left at the first year found\<close>
  "year_lines meta [] = []"
| "year_lines meta (key # keys) =
     (case year_of (case meta key of None \<Rightarrow> [] | Some val \<Rightarrow> val) of
        Some y \<Rightarrow> [''Detected Publication Year: '' @ y]
      | None \<Rightarrow> year_lines meta keys)"

definition link_uris :: "string option list \<Rightarrow> string list" where
  "link_uris links =
     filter (\<lambda>uri. uri \<noteq> []) (map (\<lambda>l. strip (case l of None \<Rightarrow> [] | Some u \<Rightarrow> u)) links)"

definition id_chunks :: "document \<Rightarrow> string list \<Rightarrow> py_error + string list" where
  "id_chunks doc pre_intro =
     (let chunks = (if pre_intro \<noteq> [] then [join nl pre_intro] else [])
      in case doc_pages doc of
           [] \<Rightarrow> Inr chunks
         | first_page # _ \<Rightarrow>
             (case page_get_text first_page of
                Inl err \<Rightarrow> Inl err
              | Inr t \<Rightarrow>
                  Inr (chunks @ [t] @
                       (case page_get_links first_page of
                          Inl _ \<Rightarrow> []
                        | Inr links \<Rightarrow> link_uris links))))"

definition id_text :: "document \<Rightarrow> string list \<Rightarrow> py_error + string" where
  \<comment> \<open>the safe zone\<close>
  "id_text doc pre_intro =
     (case id_chunks doc pre_intro of Inl err \<Rightarrow> Inl err | Inr chunks \<Rightarrow> Inr (join nl chunks))"

definition outlet_lines :: "string list \<Rightarrow> string list" where
  "outlet_lines pre_intro =
     (case re_search_group outlet_prefix outlet_group (join nl pre_intro) of
        Some g \<Rightarrow> [''Detected Publication Outlet: '' @ strip g]
      | None \<Rightarrow> [])"

definition doi_lines :: "string \<Rightarrow> string list" where
  "doi_lines idt =
     (case re_search doi_pattern idt of
        Some (i, j) \<Rightarrow>
          [''Detected DOI: '' @ slice i j idt,
           ''Detected DOI URL: https://doi.org/'' @ slice i j idt]
      | None \<Rightarrow> [])"

definition arxiv_lines :: "string \<Rightarrow> string list" where
  "arxiv_lines idt =
     (case re_search_group arxiv_prefix arxiv_group idt of
        Some g \<Rightarrow>
          [''Detected arXiv ID: '' @ g,
           ''Detected arXiv URL: https://arxiv.org/abs/'' @ g]
      | None \<Rightarrow> [''No arXiv ID detected.''])"

definition license_markers :: "string list" where
  "license_markers =
    [''creative commons'', ''cc by'', ''cc-by'', ''open access article'',
     ''open-access article'', ''open access'', ''distributed under the terms of the'',
     ''this is an open access article'', ''open access funded'', ''public domain'',
     ''u.s. government work'']"

definition license_text :: "string \<Rightarrow> string list \<Rightarrow> string" where
  \<comment> \<open>\<^verbatim>\<open>text_lower\<close>\<close>
  "license_text full_text pre_intro = lower (join nl pre_intro @ nl @ full_text)"

definition open_access :: "string list \<Rightarrow> string \<Rightarrow> string list \<Rightarrow> string" where
  "open_access meta_lines full_text pre_intro =
     (if list_ex (contains ''Detected Publication Outlet: arXiv'') meta_lines then ''Yes''
      else if list_ex (\<lambda>marker. contains marker (license_text full_text pre_intro))
                license_markers
      then ''Yes'' else ''No'')"

definition extract_metadata_lines ::
  "document \<Rightarrow> string \<Rightarrow> string list \<Rightarrow> py_error + string list" where
  \<comment> \<open>\<^verbatim>\<open>meta_lines\<close> at the end of \<^verbatim>\<open>extract_metadata\<close>\<close>
  "extract_metadata_lines doc full_text pre_intro =
     (case id_text doc pre_intro of
        Inl err \<Rightarrow> Inl err
      | Inr idt \<Rightarrow>
          (let meta_lines =
                 year_lines (doc_metadata doc) [''creationDate'', ''modDate''] @
                 outlet_lines pre_intro @ doi_lines idt @ arxiv_lines idt
           in Inr (meta_lines @
                   [''Detected Open Access: '' @ open_access meta_lines full_text pre_intro])))"

definition extract_metadata :: "document \<Rightarrow> string \<Rightarrow> string list \<Rightarrow> py_error + string" where
  "extract_metadata doc full_text pre_intro =
     (case extract_metadata_lines doc full_text pre_intro of
        Inl err \<Rightarrow> Inl err
      | Inr meta_lines \<Rightarrow> Inr (if meta_lines \<noteq> [] then join nl meta_lines @ nl else []))"


section \<open>The pipeline\<close>

fun page_texts :: "page list \<Rightarrow> py_error + string list" where
  \<comment> \<open>\<^verbatim>\<open>[page.get_text() for page in doc]\<close>\<close>
  "page_texts [] = Inr []"
| "page_texts (p # ps) =
     (case page_get_text p of
        Inl err \<Rightarrow> Inl err
      | Inr t \<Rightarrow> (case page_texts ps of Inl err \<Rightarrow> Inl err | Inr ts \<Rightarrow> Inr (t # ts)))"

definition extract_text_and_lines :: "document \<Rightarrow> py_error + (string \<times> string list)" where
  "extract_text_and_lines doc =
     (case page_texts (doc_pages doc) of
        Inl err \<Rightarrow> Inl err
      | Inr ps \<Rightarrow> (let full_text = join nl ps in Inr (full_text, map strip (splitlines full_text))))"

record sections =
  sec_pre_intro :: string
  sec_abstract :: string
  sec_main_body :: string
  sec_end_matter :: string

record extraction =
  ex_sections :: sections
  ex_full_text :: string

definition pre_intro_section :: "string \<Rightarrow> string list \<Rightarrow> string \<Rightarrow> string" where
  "pre_intro_section meta_block pre_intro full_text =
     (let s = strip (meta_block @ join nl pre_intro) in if s = [] then full_text else s)"

definition process_document :: "document \<Rightarrow> py_error + extraction" where
  \<comment> \<open>the body of the \<^verbatim>\<open>try\<close> of \<^verbatim>\<open>extract_text_from_attachment\<close>\<close>
  "process_document doc =
     (case extract_text_and_lines doc of
        Inl err \<Rightarrow> Inl err
      | Inr (full_text, stripped) \<Rightarrow>
          (let abstract_idx = find_index abstract_patterns stripped;
               intro_idx = find_index intro_patterns stripped;
               end_idx = find_index end_patterns stripped
           in case extract_sections stripped abstract_idx intro_idx end_idx of
                Inl err \<Rightarrow> Inl err
              | Inr (pre_intro, abstract, main_body, end_matter) \<Rightarrow>
                  (case extract_metadata doc full_text pre_intro of
                     Inl err \<Rightarrow> Inl err
                   | Inr meta_block \<Rightarrow>
                       Inr \<lparr> ex_sections =
                               \<lparr> sec_pre_intro = pre_intro_section meta_block pre_intro full_text,
                                 sec_abstract =
                                   strip (join '' '' (filter (\<lambda>l. l \<noteq> []) (map strip abstract))),
                                 sec_main_body = strip (join nl main_body),
                                 sec_end_matter = strip (join nl end_matter) \<rparr>,
                             ex_full_text = full_text \<rparr>)))"

text \<open>
  The attachment is a path, a dictionary (of which only the \<^verbatim>\<open>url\<close> entry is read) or
  something else. The file system and the network are an environment: what opening a path
  gives, whether a path exists, and what \<^verbatim>\<open>download_pdf\<close> gives for a URL after its
  retries. The state counts the documents opened and the calls of \<^verbatim>\<open>close\<close>.
\<close>

datatype attachment = AttStr string | AttDict "string option" | AttOther

record environment =
  env_open :: "string \<Rightarrow> py_error + document"
  env_exists :: "string \<Rightarrow> bool"
  env_download :: "string \<Rightarrow> py_error + document"

record handles =
  opened :: nat
  closed :: nat

definition open_attachment :: "environment \<Rightarrow> attachment \<Rightarrow> py_error + document" where
  "open_attachment env att =
     (case att of
        AttStr path \<Rightarrow> env_open env path
      | AttDict (Some url) \<Rightarrow> if env_exists env url then env_open env url else env_download env url
      | AttDict None \<Rightarrow> Inl ValueError
      | AttOther \<Rightarrow> Inl ValueError)"

definition extract_text_from_attachment ::
  "environment \<Rightarrow> attachment \<Rightarrow> handles \<Rightarrow> (py_error + extraction) \<times> handles" where
  \<comment> \<open>\<^verbatim>\<open>try\<close> ... \<^verbatim>\<open>finally: doc.close()\<close>: the result of the body, whatever it is, after the close\<close>
  "extract_text_from_attachment env att h =
     (case open_attachment env att of
        Inl err \<Rightarrow> (Inl err, h)
      | Inr doc \<Rightarrow>
          (let h1 = h\<lparr>opened := opened h + 1\<rparr>;
               result = process_document doc
           in (result, h1\<lparr>closed := closed h1 + 1\<rparr>)))"


section \<open>Vocabulary of the properties\<close>

definition hits :: "rx list \<Rightarrow> string \<Rightarrow> bool" where
  \<comment> \<open>some pattern matches the lowercased line or its normalized form\<close>
  "hits patterns ln =
     (\<exists>pat\<in>set patterns. re_match pat (lower ln) \<or> re_match pat (re_sub_eq_space (lower ln)))"

definition allcaps_pattern :: rx where
  \<comment> \<open>the third of the \<open>numbered_patterns\<close>\<close>
  "allcaps_pattern = seqs [Bol, Cls isupper_az, Rep (\<lambda>c. isupper_az c \<or> isspace c) 3 None, Eol]"

definition unreadable_doc :: document where
  \<comment> \<open>a document whose only page cannot be read\<close>
  "unreadable_doc =
     \<lparr> doc_metadata = Map.empty,
       doc_pages = [\<lparr> page_get_text = Inl DocumentError, page_get_links = Inr [] \<rparr>] \<rparr>"

definition one_file_env :: "document \<Rightarrow> environment" where
  \<comment> \<open>every path exists and opens to the given document\<close>
  "one_file_env doc =
     \<lparr> env_open = (\<lambda>path. Inr doc), env_exists = (\<lambda>path. True),
       env_download = (\<lambda>url. Inl RuntimeError) \<rparr>"

definition empty_doc :: document where
  \<comment> \<open>no pages, no metadata\<close>
  "empty_doc = \<lparr> doc_metadata = Map.empty, doc_pages = [] \<rparr>"


definition refs_doc :: document where
  \<comment> \<open>one page; a DOI only after the references heading\<close>
  "refs_doc =
     \<lparr> doc_metadata = Map.empty,
       doc_pages = [\<lparr> page_get_text = Inr ''Introduction\<newline>References\<newline>10.1234/abc.567'',
                      page_get_links = Inr [] \<rparr>] \<rparr>"

definition dated_empty_doc :: document where
  \<comment> \<open>no pages, and a creation date\<close>
  "dated_empty_doc =
     \<lparr> doc_metadata = [''creationDate'' \<mapsto> ''D:20210615120000Z''], doc_pages = [] \<rparr>"

definition covered :: "nat \<Rightarrow> nat \<Rightarrow> 'a list \<Rightarrow> nat set" where
  \<comment> \<open>the indices of the lines that \<open>slice lo hi xs\<close> holds\<close>
  "covered lo hi xs = {k. lo \<le> k \<and> k < hi \<and> k < length xs}"

definition pre_intro_stop :: "nat option \<Rightarrow> nat option \<Rightarrow> nat" where
  \<comment> \<open>where \<open>pre_intro\<close> stops: \<open>first_break\<close>, or 50 without one\<close>
  "pre_intro_stop abstract_idx intro_idx =
     (case first_break abstract_idx intro_idx of Some b \<Rightarrow> b | None \<Rightarrow> 50)"

definition end_matter_start :: "string list \<Rightarrow> nat option \<Rightarrow> nat" where
  \<comment> \<open>where \<open>end_matter\<close> starts: after \<open>end_idx\<close>, or nowhere without one\<close>
  "end_matter_start stripped end_idx =
     (case end_idx of Some e \<Rightarrow> e + 1 | None \<Rightarrow> length stripped)"


section \<open>The boundary locator returns the first matching line\<close>

lemma find_index_from_step:
  "find_index_from patterns idx (ln # lines) =
     (if hits patterns ln then Some idx else find_index_from patterns (Suc idx) lines)"
  by (simp add: hits_def list_ex_iff Let_def)

lemma find_index_from_None:
  "find_index_from patterns idx lines = None \<longleftrightarrow> (\<forall>i<length lines. \<not> hits patterns (lines ! i))"
proof (induction lines arbitrary: idx)
  case Nil
  show ?case by simp
next
  case (Cons ln lines)
  show ?case
    unfolding find_index_from_step by (simp add: Cons.IH All_less_Suc2)
qed

lemma find_index_from_Some:
  "find_index_from patterns idx lines = Some k \<Longrightarrow>
     idx \<le> k \<and> k - idx < length lines \<and> hits patterns (lines ! (k - idx)) \<and>
     (\<forall>j<k - idx. \<not> hits patterns (lines ! j))"
proof (induction lines arbitrary: idx)
  case Nil
  then show ?case by simp
next
  case (Cons ln lines)
  show ?case
  proof (cases "hits patterns ln")
    case True
    with Cons.prems show ?thesis unfolding find_index_from_step by simp
  next
    case False
    with Cons.prems have rec: "find_index_from patterns (Suc idx) lines = Some k"
      unfolding find_index_from_step by simp
    from Cons.IH [OF rec] have ih: "Suc idx \<le> k" "k - Suc idx < length lines"
      "hits patterns (lines ! (k - Suc idx))"
      "\<forall>j<k - Suc idx. \<not> hits patterns (lines ! j)"
      by blast+
    from ih(1) have kd: "k - idx = Suc (k - Suc idx)" by arith
    show ?thesis
      using ih False unfolding kd
      by (auto simp: less_Suc_eq_0_disj)
  qed
qed

lemma find_index_from_set:
  "set ps = set qs \<Longrightarrow> find_index_from ps idx lines = find_index_from qs idx lines"
proof (induction lines arbitrary: idx)
  case Nil
  show ?case by simp
next
  case (Cons ln lines)
  then show ?case unfolding find_index_from_step by (simp add: hits_def)
qed

lemma find_index_bound: "find_index patterns lines = Some k \<Longrightarrow> k < length lines"
  unfolding find_index_def by (drule find_index_from_Some) simp

text \<open>
  Claim C3, as the code has it. \<open>find_index\<close> returns the index of the first line, in
  document order, whose lowercased form or whose normalized form (lowercased, with every
  whitespace character and every equals sign removed) is matched from its start by some
  pattern of the list; it returns \<open>None\<close> exactly when no line is. The order of the
  patterns does not matter: two lists with the same patterns give the same index.
\<close>

theorem find_index_first_match:
  "(find_index patterns lines = None \<longleftrightarrow> (\<forall>i<length lines. \<not> hits patterns (lines ! i))) \<and>
   (\<forall>k. find_index patterns lines = Some k \<longrightarrow>
      k < length lines \<and> hits patterns (lines ! k) \<and> (\<forall>j<k. \<not> hits patterns (lines ! j))) \<and>
   (\<forall>others. set others = set patterns \<longrightarrow> find_index others lines = find_index patterns lines)"
proof -
  have a: "find_index patterns lines = None \<longleftrightarrow> (\<forall>i<length lines. \<not> hits patterns (lines ! i))"
    unfolding find_index_def by (rule find_index_from_None)
  have b: "\<forall>k. find_index patterns lines = Some k \<longrightarrow>
      k < length lines \<and> hits patterns (lines ! k) \<and> (\<forall>j<k. \<not> hits patterns (lines ! j))"
  proof (intro allI impI)
    fix k assume k: "find_index patterns lines = Some k"
    from find_index_from_Some [OF k [unfolded find_index_def]]
    show "k < length lines \<and> hits patterns (lines ! k) \<and> (\<forall>j<k. \<not> hits patterns (lines ! j))"
      by simp
  qed
  have c: "\<forall>others. set others = set patterns \<longrightarrow>
      find_index others lines = find_index patterns lines"
    unfolding find_index_def by (blast intro: find_index_from_set)
  from a b c show ?thesis by blast
qed

theorem find_index_first_match_witness:
  "find_index [allcaps_pattern, Seq Bol (lit ''intro'')] [''METHODS'', ''Intro''] = Some 1 \<and>
   hits [allcaps_pattern, Seq Bol (lit ''intro'')] ([''METHODS'', ''Intro''] ! 1) \<and>
   \<not> hits [allcaps_pattern, Seq Bol (lit ''intro'')] ([''METHODS'', ''Intro''] ! 0)"
proof -
  have e: "find_index [allcaps_pattern, Seq Bol (lit ''intro'')] [''METHODS'', ''Intro''] = Some 1"
    by code_simp
  from find_index_first_match [of "[allcaps_pattern, Seq Bol (lit ''intro'')]" "[''METHODS'', ''Intro'']"] e
  show ?thesis by simp
qed

text \<open>
  The claim as it is worded, with the raw form of the line in the place of the lowercased
  one, fails: the raw line \<open>METHODS\<close> is matched by the all-capitals pattern, and the search
  finds nothing, since it only tries the lowercased line and its normalized form.
\<close>

theorem find_index_raw_counterexample:
  "re_match allcaps_pattern ''METHODS'' \<and> find_index [allcaps_pattern] [''METHODS''] = None"
  by code_simp

section \<open>The zones of the partitioner\<close>

lemma abstract_lines_total:
  "(\<forall>a. abstract_idx = Some a \<longrightarrow> a < length stripped) \<Longrightarrow>
     \<exists>ab. abstract_lines stripped abstract_idx intro_idx = Inr ab"
  by (auto simp: abstract_lines_def split: option.splits)

text \<open>
  Claim C6. When neither an abstract heading nor an introduction heading is found, the
  \<open>pre_intro\<close> zone of \<open>extract_sections\<close> is the first 50 lines of the document, or all
  of them when there are fewer; when one of them is found it is every line before that
  index, and when both are, every line before the smaller index. The call returns whenever
  the abstract index, if there is one, is the index of a line.
\<close>

theorem extract_sections_pre_intro:
  assumes "\<forall>a. abstract_idx = Some a \<longrightarrow> a < length stripped"
  shows "\<exists>pre ab body endm.
     extract_sections stripped abstract_idx intro_idx end_idx = Inr (pre, ab, body, endm) \<and>
     (abstract_idx = None \<and> intro_idx = None \<longrightarrow>
        pre = take 50 stripped \<and> length pre = min 50 (length stripped)) \<and>
     (\<forall>a. abstract_idx = Some a \<and> intro_idx = None \<longrightarrow> pre = take a stripped) \<and>
     (\<forall>i. abstract_idx = None \<and> intro_idx = Some i \<longrightarrow> pre = take i stripped) \<and>
     (\<forall>a i. abstract_idx = Some a \<and> intro_idx = Some i \<longrightarrow> pre = take (min a i) stripped)"
proof -
  from abstract_lines_total [OF assms] obtain ab
    where ab: "abstract_lines stripped abstract_idx intro_idx = Inr ab" by blast
  have "extract_sections stripped abstract_idx intro_idx end_idx =
          Inr (pre_intro_lines stripped abstract_idx intro_idx, ab,
               main_body_lines stripped abstract_idx intro_idx end_idx,
               end_matter_lines stripped end_idx)"
    by (simp add: extract_sections_def ab)
  moreover have "abstract_idx = None \<and> intro_idx = None \<longrightarrow>
      pre_intro_lines stripped abstract_idx intro_idx = take 50 stripped \<and>
      length (pre_intro_lines stripped abstract_idx intro_idx) = min 50 (length stripped)"
    by (auto simp: pre_intro_lines_def first_break_def)
  moreover have "\<forall>a. abstract_idx = Some a \<and> intro_idx = None \<longrightarrow>
      pre_intro_lines stripped abstract_idx intro_idx = take a stripped"
    by (simp add: pre_intro_lines_def first_break_def)
  moreover have "\<forall>i. abstract_idx = None \<and> intro_idx = Some i \<longrightarrow>
      pre_intro_lines stripped abstract_idx intro_idx = take i stripped"
    by (simp add: pre_intro_lines_def first_break_def)
  moreover have "\<forall>a i. abstract_idx = Some a \<and> intro_idx = Some i \<longrightarrow>
      pre_intro_lines stripped abstract_idx intro_idx = take (min a i) stripped"
    by (simp add: pre_intro_lines_def first_break_def)
  ultimately show ?thesis by blast
qed

theorem extract_sections_pre_intro_witness:
  "\<exists>pre ab body endm.
     extract_sections [''Title'', ''Abstract'', ''text'', ''Introduction''] (Some 1) (Some 3) None =
       Inr (pre, ab, body, endm) \<and> pre = [''Title'']"
proof -
  have h: "\<forall>a. Some (1::nat) = Some a \<longrightarrow> a < length [''Title'', ''Abstract'', ''text'', ''Introduction'']"
    by simp
  from extract_sections_pre_intro [OF h, of "Some 3" None]
  show ?thesis by simp
qed

text \<open>
  Claim C7 at a numbered heading. With no keywords line and no introduction heading after
  the abstract heading, the last-resort scan is the one that should end the abstract at the
  first later line that is a numbered, roman or all-capitals heading. On the lines
  \<open>Abstract\<close>, \<open>text\<close>, \<open>1. METHODS\<close>, \<open>more\<close> the line \<open>1. METHODS\<close> is matched by the
  first of the \<open>numbered_patterns\<close>, and still the scan gives no candidate: the end of the
  abstract is the end of the document, and the abstract zone holds the heading and what
  follows it.
\<close>

theorem numbered_heading_missed:
  "find_index abstract_patterns [''Abstract'', ''text'', ''1. METHODS'', ''more''] = Some 0 \<and>
   find_index intro_patterns [''Abstract'', ''text'', ''1. METHODS'', ''more''] = None \<and>
   kw_after [''Abstract'', ''text'', ''1. METHODS'', ''more''] 0 = None \<and>
   intro_after None 0 = None \<and>
   re_match (hd numbered_patterns) ''1. METHODS'' \<and>
   numbered_after [''Abstract'', ''text'', ''1. METHODS'', ''more''] 0 None = None \<and>
   abs_end [''Abstract'', ''text'', ''1. METHODS'', ''more''] 0 None = 4 \<and>
   extract_sections [''Abstract'', ''text'', ''1. METHODS'', ''more''] (Some 0) None None =
     Inr ([], [''text'', ''1. METHODS'', ''more''], [''text'', ''1. METHODS'', ''more''], [])"
  by code_simp

section \<open>The document handle\<close>

text \<open>
  Claim C9. Whenever the attachment is opened, \<open>extract_text_from_attachment\<close> closes the
  document exactly once, whatever the processing of the document gives; the result of the
  processing is the result of the call, so that a failure of the processing reaches the
  caller, with the document closed.
\<close>

theorem close_exactly_once:
  assumes "open_attachment env att = Inr doc"
  shows "closed (snd (extract_text_from_attachment env att h)) = closed h + 1 \<and>
         opened (snd (extract_text_from_attachment env att h)) = opened h + 1 \<and>
         fst (extract_text_from_attachment env att h) = process_document doc \<and>
         (\<forall>err. process_document doc = Inl err \<longrightarrow>
            extract_text_from_attachment env att h =
              (Inl err, h\<lparr>opened := opened h + 1, closed := closed h + 1\<rparr>))"
  using assms by (simp add: extract_text_from_attachment_def Let_def)

theorem close_exactly_once_witness:
  "open_attachment (one_file_env unreadable_doc) (AttStr ''paper.pdf'') = Inr unreadable_doc \<and>
   process_document unreadable_doc = Inl DocumentError \<and>
   extract_text_from_attachment (one_file_env unreadable_doc) (AttStr ''paper.pdf'')
       \<lparr>opened = 0, closed = 0\<rparr> =
     (Inl DocumentError, \<lparr>opened = 1, closed = 1\<rparr>)"
proof -
  have o: "open_attachment (one_file_env unreadable_doc) (AttStr ''paper.pdf'') = Inr unreadable_doc"
    by (simp add: open_attachment_def one_file_env_def)
  have p: "process_document unreadable_doc = Inl DocumentError"
    by (simp add: process_document_def extract_text_and_lines_def unreadable_doc_def)
  from close_exactly_once [OF o, of "\<lparr>opened = 0, closed = 0\<rparr>"] o p
  show ?thesis by simp
qed

section \<open>The front-matter section is never empty\<close>

lemma in_set_dropWhile: "\<not> P c \<Longrightarrow> c \<in> set xs \<Longrightarrow> c \<in> set (dropWhile P xs)"
  by (induction xs) auto

lemma strip_nonempty: "c \<in> set s \<Longrightarrow> \<not> isspace c \<Longrightarrow> strip s \<noteq> []"
proof -
  assume c: "c \<in> set s" and n: "\<not> isspace c"
  from in_set_dropWhile [of isspace c s, OF n c]
  have "c \<in> set (rev (dropWhile isspace s))" by simp
  from in_set_dropWhile [of isspace c "rev (dropWhile isspace s)", OF n this]
  have "c \<in> set (dropWhile isspace (rev (dropWhile isspace s)))" .
  then show ?thesis
    by (metis length_pos_if_in_set length_greater_0_conv rev_is_Nil_conv strip_def)
qed

lemma set_join: "x \<in> set xs \<Longrightarrow> set x \<subseteq> set (join sep xs)"
  by (induction sep xs rule: join.induct) auto

lemma metadata_lines_last:
  "extract_metadata_lines doc full_text pre_intro = Inr ls \<Longrightarrow>
     \<exists>ml. ls = ml @ [''Detected Open Access: '' @ open_access ml full_text pre_intro]"
  by (auto simp: extract_metadata_lines_def Let_def split: sum.splits)

lemma metadata_block_letter:
  assumes "extract_metadata doc full_text pre_intro = Inr meta_block"
  shows "CHR ''D'' \<in> set meta_block"
proof -
  from assms obtain ls where ls: "extract_metadata_lines doc full_text pre_intro = Inr ls"
    and mb: "meta_block = (if ls \<noteq> [] then join nl ls @ nl else [])"
    by (auto simp: extract_metadata_def split: sum.splits)
  from metadata_lines_last [OF ls] obtain ml oa where l: "ls = ml @ [''Detected Open Access: '' @ oa]"
    by blast
  then have "''Detected Open Access: '' @ oa \<in> set ls" by simp
  from set_join [OF this, of nl] have "CHR ''D'' \<in> set (join nl ls)" by auto
  with l mb show ?thesis by simp
qed

lemma letter_not_space: "\<not> isspace (CHR ''D'')"
  by (simp add: isspace_def)

lemma pre_intro_section_metadata:
  assumes "extract_metadata doc full_text pre_intro = Inr meta_block"
  shows "pre_intro_section meta_block pre_intro full_text = strip (meta_block @ join nl pre_intro) \<and>
         strip (meta_block @ join nl pre_intro) \<noteq> []"
proof -
  from metadata_block_letter [OF assms] have "CHR ''D'' \<in> set (meta_block @ join nl pre_intro)"
    by simp
  from strip_nonempty [OF this letter_not_space] show ?thesis
    by (simp add: pre_intro_section_def Let_def)
qed

text \<open>
  Claim C10. The \<open>pre_intro\<close> section of every returned extraction is not empty: it is the
  metadata block followed by the front-matter lines, stripped, and the metadata block
  always holds the open-access line; the full text never takes its place.
\<close>

theorem pre_intro_section_nonempty:
  assumes "process_document doc = Inr r"
  shows "sec_pre_intro (ex_sections r) \<noteq> [] \<and>
         (\<exists>meta_block pre_intro.
            extract_metadata doc (ex_full_text r) pre_intro = Inr meta_block \<and>
            sec_pre_intro (ex_sections r) = strip (meta_block @ join nl pre_intro))"
proof -
  from assms obtain full_text stripped pre_intro abstract main_body end_matter meta_block
    where m: "extract_metadata doc full_text pre_intro = Inr meta_block"
      and r: "sec_pre_intro (ex_sections r) = pre_intro_section meta_block pre_intro full_text"
             "ex_full_text r = full_text"
    by (auto simp: process_document_def Let_def split: sum.splits prod.splits)
  from pre_intro_section_metadata [OF m] m r show ?thesis by auto
qed

lemma empty_doc_result:
  "process_document empty_doc =
     Inr \<lparr> ex_sections =
             \<lparr> sec_pre_intro = ''No arXiv ID detected.\<newline>Detected Open Access: No'',
               sec_abstract = [], sec_main_body = [], sec_end_matter = [] \<rparr>,
           ex_full_text = [] \<rparr>"
  unfolding empty_doc_def by code_simp

theorem pre_intro_section_nonempty_witness:
  "process_document empty_doc =
     Inr \<lparr> ex_sections =
             \<lparr> sec_pre_intro = ''No arXiv ID detected.\<newline>Detected Open Access: No'',
               sec_abstract = [], sec_main_body = [], sec_end_matter = [] \<rparr>,
           ex_full_text = [] \<rparr> \<and>
   ''No arXiv ID detected.\<newline>Detected Open Access: No'' \<noteq> []"
  using pre_intro_section_nonempty [OF empty_doc_result] empty_doc_result by simp

section \<open>The metadata block\<close>

lemma search_from_Some:
  "search_from r s i n = Some (a, b) \<Longrightarrow>
     i \<le> a \<and> a < i + n \<and> ends r s a \<noteq> [] \<and> b = hd (ends r s a) \<and>
     (\<forall>k. i \<le> k \<and> k < a \<longrightarrow> ends r s k = [])"
proof (induction n arbitrary: i)
  case 0
  then show ?case by simp
next
  case (Suc n)
  show ?case
  proof (cases "ends r s i")
    case Nil
    with Suc.prems have "search_from r s (Suc i) n = Some (a, b)" by simp
    from Suc.IH [OF this]
    have ih: "Suc i \<le> a" "a < Suc i + n" "ends r s a \<noteq> []" "b = hd (ends r s a)"
      "\<forall>k. Suc i \<le> k \<and> k < a \<longrightarrow> ends r s k = []"
      by blast+
    have "ends r s k = []" if "i \<le> k \<and> k < a" for k
    proof (cases "k = i")
      case True
      with Nil show ?thesis by simp
    next
      case False
      with that have "Suc i \<le> k \<and> k < a" by arith
      with ih(5) show ?thesis by blast
    qed
    with ih show ?thesis by auto
  next
    case (Cons e es)
    with Suc.prems show ?thesis by auto
  qed
qed

lemma search_from_None:
  "search_from r s i n = None \<Longrightarrow> i \<le> k \<Longrightarrow> k < i + n \<Longrightarrow> ends r s k = []"
proof (induction n arbitrary: i)
  case 0
  then show ?case by simp
next
  case (Suc n)
  show ?case
  proof (cases "ends r s i")
    case Nil
    with Suc.prems have rec: "search_from r s (Suc i) n = None" by simp
    show ?thesis
    proof (cases "k = i")
      case True
      with Nil show ?thesis by simp
    next
      case False
      with Suc.prems have "Suc i \<le> k" "k < Suc i + n" by simp_all
      from Suc.IH [OF rec this] show ?thesis .
    qed
  next
    case (Cons e es)
    with Suc.prems show ?thesis by simp
  qed
qed







lemma year_lines_form:
  "l \<in> set (year_lines meta keys) \<Longrightarrow>
     \<exists>val y. year_of val = Some y \<and> l = ''Detected Publication Year: '' @ y"
  by (induction keys) (auto split: option.splits)

lemma year_lines_length: "length (year_lines meta keys) \<le> 1"
  by (induction keys) (auto split: option.splits)

lemma outlet_lines_form:
  "l \<in> set (outlet_lines pre_intro) \<Longrightarrow> \<exists>g. l = ''Detected Publication Outlet: '' @ g"
  by (auto simp: outlet_lines_def split: option.splits)

lemma arxiv_lines_form:
  "l \<in> set (arxiv_lines idt) \<Longrightarrow>
     (\<exists>g. l = ''Detected arXiv ID: '' @ g) \<or>
     (\<exists>g. l = ''Detected arXiv URL: https://arxiv.org/abs/'' @ g) \<or>
     l = ''No arXiv ID detected.''"
  by (auto simp: arxiv_lines_def split: option.splits)

lemma re_search_Some:
  "re_search r s = Some (i, j) \<Longrightarrow>
     ends r s i \<noteq> [] \<and> j = hd (ends r s i) \<and> (\<forall>k<i. ends r s k = [])"
  unfolding re_search_def by (drule search_from_Some) simp

lemma re_search_None:
  "re_search r s = None \<Longrightarrow> \<forall>k\<le>length s. ends r s k = []"
  unfolding re_search_def using search_from_None [of r s 0 "Suc (length s)"] by simp

text \<open>
  Claim C4, as the code has it. The DOI is searched in the safe zone only: the front-matter
  lines, the text of the first page and the link targets of the first page, joined by
  newlines. When the safe zone holds a DOI-shaped string, the metadata holds the line
  \<open>Detected DOI:\<close> and the line \<open>Detected DOI URL: https://doi.org/\<close> for the leftmost
  match; when it holds none, no line of the metadata begins with \<open>Detected DOI\<close>,
  whatever the rest of the document holds.
\<close>

theorem doi_detection:
  assumes "id_text doc pre_intro = Inr idt"
  shows "\<exists>ls. extract_metadata_lines doc full_text pre_intro = Inr ls \<and>
     (\<forall>i j. re_search doi_pattern idt = Some (i, j) \<longrightarrow>
        ''Detected DOI: '' @ slice i j idt \<in> set ls \<and>
        ''Detected DOI URL: https://doi.org/'' @ slice i j idt \<in> set ls \<and>
        ends doi_pattern idt i \<noteq> [] \<and> j = hd (ends doi_pattern idt i) \<and>
        (\<forall>k<i. ends doi_pattern idt k = [])) \<and>
     (re_search doi_pattern idt = None \<longrightarrow>
        (\<forall>k\<le>length idt. ends doi_pattern idt k = []) \<and>
        (\<forall>l\<in>set ls. \<not> startswith ''Detected DOI'' l))"
proof -
  define ml where "ml = year_lines (doc_metadata doc) [''creationDate'', ''modDate''] @
                 outlet_lines pre_intro @ doi_lines idt @ arxiv_lines idt"
  define ls where "ls = ml @ [''Detected Open Access: '' @ open_access ml full_text pre_intro]"
  have r: "extract_metadata_lines doc full_text pre_intro = Inr ls"
    by (simp add: extract_metadata_lines_def assms Let_def ls_def ml_def)
  have found: "''Detected DOI: '' @ slice i j idt \<in> set ls \<and>
        ''Detected DOI URL: https://doi.org/'' @ slice i j idt \<in> set ls \<and>
        ends doi_pattern idt i \<noteq> [] \<and> j = hd (ends doi_pattern idt i) \<and>
        (\<forall>k<i. ends doi_pattern idt k = [])"
    if s: "re_search doi_pattern idt = Some (i, j)" for i j
  proof -
    from s have "doi_lines idt = [''Detected DOI: '' @ slice i j idt,
           ''Detected DOI URL: https://doi.org/'' @ slice i j idt]"
      by (simp add: doi_lines_def)
    then have "''Detected DOI: '' @ slice i j idt \<in> set ls"
      "''Detected DOI URL: https://doi.org/'' @ slice i j idt \<in> set ls"
      by (simp_all add: ls_def ml_def)
    with re_search_Some [OF s] show ?thesis by blast
  qed
  have absent: "\<not> startswith ''Detected DOI'' l"
    if n: "re_search doi_pattern idt = None" and l: "l \<in> set ls" for l
  proof -
    from n have d: "doi_lines idt = []" by (simp add: doi_lines_def)
    from l d consider "l \<in> set (year_lines (doc_metadata doc) [''creationDate'', ''modDate''])"
      | "l \<in> set (outlet_lines pre_intro)" | "l \<in> set (arxiv_lines idt)"
      | "l = ''Detected Open Access: '' @ open_access ml full_text pre_intro"
      by (auto simp: ls_def ml_def)
    then show ?thesis
    proof cases
      case 1
      from year_lines_form [OF 1] show ?thesis by auto
    next
      case 2
      from outlet_lines_form [OF 2] show ?thesis by auto
    next
      case 3
      from arxiv_lines_form [OF 3] show ?thesis by auto
    next
      case 4
      then show ?thesis by simp
    qed
  qed
  show ?thesis
  proof (intro exI [of _ ls] conjI)
    show "extract_metadata_lines doc full_text pre_intro = Inr ls" by (rule r)
    show "\<forall>i j. re_search doi_pattern idt = Some (i, j) \<longrightarrow>
        ''Detected DOI: '' @ slice i j idt \<in> set ls \<and>
        ''Detected DOI URL: https://doi.org/'' @ slice i j idt \<in> set ls \<and>
        ends doi_pattern idt i \<noteq> [] \<and> j = hd (ends doi_pattern idt i) \<and>
        (\<forall>k<i. ends doi_pattern idt k = [])"
      using found by blast
    show "re_search doi_pattern idt = None \<longrightarrow>
        (\<forall>k\<le>length idt. ends doi_pattern idt k = []) \<and>
        (\<forall>l\<in>set ls. \<not> startswith ''Detected DOI'' l)"
      using absent re_search_None [of doi_pattern idt] by blast
  qed
qed

lemma refs_doc_id_text:
  "id_text refs_doc [] = Inr ''Introduction\<newline>References\<newline>10.1234/abc.567''"
  unfolding refs_doc_def by code_simp

lemma refs_doc_search:
  "re_search doi_pattern ''Introduction\<newline>References\<newline>10.1234/abc.567'' = Some (24, 39)"
  by code_simp

theorem doi_detection_witness:
  "\<exists>ls. extract_metadata_lines refs_doc [] [] = Inr ls \<and>
     ''Detected DOI: 10.1234/abc.567'' \<in> set ls \<and>
     ''Detected DOI URL: https://doi.org/10.1234/abc.567'' \<in> set ls"
proof -
  have s: "slice 24 39 ''Introduction\<newline>References\<newline>10.1234/abc.567'' = ''10.1234/abc.567''"
    by (simp add: slice_def)
  from doi_detection [OF refs_doc_id_text, of "[]"] refs_doc_search s
  show ?thesis by auto
qed

text \<open>
  The second half of the claim as it is worded fails: a DOI that occurs only after a detected
  references heading is still found when that heading is on the first page, since the text
  of the whole first page is part of the safe zone.
\<close>

theorem doi_after_references_counterexample:
  "process_document refs_doc =
     Inr \<lparr> ex_sections =
             \<lparr> sec_pre_intro = ''Detected DOI: 10.1234/abc.567\<newline>Detected DOI URL: https://doi.org/10.1234/abc.567\<newline>No arXiv ID detected.\<newline>Detected Open Access: No'',
               sec_abstract = [], sec_main_body = ''Introduction'',
               sec_end_matter = ''10.1234/abc.567'' \<rparr>,
           ex_full_text = ''Introduction\<newline>References\<newline>10.1234/abc.567'' \<rparr> \<and>
   find_index end_patterns [''Introduction'', ''References'', ''10.1234/abc.567''] = Some 1"
  unfolding refs_doc_def by code_simp

section \<open>The empty document\<close>

lemma year_pattern_ends: "e \<in> set (ends year_pattern s i) \<Longrightarrow> e = i + 4"
  by (auto simp: year_pattern_def seqs_def lit_def ch_def Let_def split: if_splits)

lemma year_of_length: "year_of val = Some y \<Longrightarrow> length y \<le> 4"
proof -
  assume "year_of val = Some y"
  then obtain i j where s: "re_search year_pattern val = Some (i, j)" and y: "y = slice i j val"
    by (auto simp: year_of_def split: if_splits)
  from re_search_Some [OF s] have "j \<in> set (ends year_pattern val i)" by simp
  from year_pattern_ends [OF this] y show ?thesis by (simp add: slice_def)
qed

lemma startswith_length: "startswith p s \<Longrightarrow> length p \<le> length s"
  by (induction p s rule: startswith.induct) auto

lemma contains_length: "contains p s \<Longrightarrow> length p \<le> length s"
  by (induction s) (auto dest: startswith_length)

lemma year_lines_no_outlet:
  assumes "l \<in> set (year_lines meta keys)"
  shows "\<not> contains ''Detected Publication Outlet: arXiv'' l"
proof
  assume c: "contains ''Detected Publication Outlet: arXiv'' l"
  from year_lines_form [OF assms] obtain val y
    where y: "year_of val = Some y" "l = ''Detected Publication Year: '' @ y" by blast
  from contains_length [OF c] y(2) year_of_length [OF y(1)] show False by simp
qed

lemma empty_text_searches:
  "outlet_lines [] = []" "doi_lines [] = []" "arxiv_lines [] = [''No arXiv ID detected.'']"
  by code_simp+

lemma empty_text_markers:
  "\<not> list_ex (\<lambda>marker. contains marker (license_text [] [])) license_markers"
  by code_simp

lemma empty_text_arxiv_line:
  "\<not> contains ''Detected Publication Outlet: arXiv'' ''No arXiv ID detected.''"
  by code_simp

lemma empty_pages_metadata_lines:
  assumes "doc_pages doc = []"
  shows "extract_metadata_lines doc [] [] =
     Inr (year_lines (doc_metadata doc) [''creationDate'', ''modDate''] @
          [''No arXiv ID detected.'', ''Detected Open Access: No''])"
proof -
  have i: "id_text doc [] = Inr []"
    by (simp add: id_text_def id_chunks_def assms)
  have "\<not> list_ex (contains ''Detected Publication Outlet: arXiv'')
          (year_lines (doc_metadata doc) [''creationDate'', ''modDate''] @ [''No arXiv ID detected.''])"
    using year_lines_no_outlet empty_text_arxiv_line
    by (auto simp: list_ex_iff simp del: year_lines.simps)
  then have "open_access
      (year_lines (doc_metadata doc) [''creationDate'', ''modDate''] @ [''No arXiv ID detected.''])
      [] [] = ''No''"
    using empty_text_markers by (simp add: open_access_def)
  then show ?thesis
    by (simp add: extract_metadata_lines_def i empty_text_searches Let_def)
qed

lemma last_join_nl: "last (join nl ls @ nl) = CHR 0x0A"
  by (simp add: nl_def)

text \<open>
  Claim C8, as the code has it. For a document without pages nothing raises: the full text
  and the line sequence are empty, no boundary is found, the four zones are empty, and the
  metadata block is the line \<open>No arXiv ID detected.\<close> and the line
  \<open>Detected Open Access: No\<close>, each ended by a newline, after at most one line for the
  publication year, which is there only when the creation or the modification date of the
  document holds a year.
\<close>

theorem empty_document:
  assumes "doc_pages doc = []"
  shows "extract_text_and_lines doc = Inr ([], []) \<and>
         extract_sections [] (find_index abstract_patterns []) (find_index intro_patterns [])
             (find_index end_patterns []) = Inr ([], [], [], []) \<and>
         length (year_lines (doc_metadata doc) [''creationDate'', ''modDate'']) \<le> 1 \<and>
         (\<forall>l\<in>set (year_lines (doc_metadata doc) [''creationDate'', ''modDate'']).
            startswith ''Detected Publication Year: '' l) \<and>
         (doc_metadata doc ''creationDate'' = None \<and> doc_metadata doc ''modDate'' = None \<longrightarrow>
            year_lines (doc_metadata doc) [''creationDate'', ''modDate''] = []) \<and>
         (\<exists>meta_block.
            extract_metadata doc [] [] = Inr meta_block \<and>
            meta_block = join nl (year_lines (doc_metadata doc) [''creationDate'', ''modDate''] @
                                  [''No arXiv ID detected.'', ''Detected Open Access: No'']) @ nl \<and>
            last meta_block = CHR 0x0A) \<and>
         (\<exists>r. process_document doc = Inr r \<and> sec_abstract (ex_sections r) = [] \<and>
              sec_main_body (ex_sections r) = [] \<and> sec_end_matter (ex_sections r) = [] \<and>
              ex_full_text r = [])"
proof -
  have t: "extract_text_and_lines doc = Inr ([], [])"
    by (simp add: extract_text_and_lines_def assms splitlines_def)
  have f: "find_index patterns [] = None" for patterns
    by (simp add: find_index_def)
  have z: "extract_sections [] None None None = Inr ([], [], [], [])"
    by (simp add: extract_sections_def abstract_lines_def pre_intro_lines_def first_break_def
        main_body_lines_def end_matter_lines_def slice_def)
  have y: "\<forall>l\<in>set (year_lines (doc_metadata doc) [''creationDate'', ''modDate'']).
            startswith ''Detected Publication Year: '' l"
    by (auto dest!: year_lines_form simp del: year_lines.simps)
  have n: "doc_metadata doc ''creationDate'' = None \<and> doc_metadata doc ''modDate'' = None \<longrightarrow>
            year_lines (doc_metadata doc) [''creationDate'', ''modDate''] = []"
    by (simp add: year_of_def)
  have m: "extract_metadata doc [] [] =
      Inr (join nl (year_lines (doc_metadata doc) [''creationDate'', ''modDate''] @
                    [''No arXiv ID detected.'', ''Detected Open Access: No'']) @ nl)"
    by (simp add: extract_metadata_def empty_pages_metadata_lines [OF assms])
  have p: "\<exists>r. process_document doc = Inr r \<and> sec_abstract (ex_sections r) = [] \<and>
              sec_main_body (ex_sections r) = [] \<and> sec_end_matter (ex_sections r) = [] \<and>
              ex_full_text r = []"
    by (simp add: process_document_def t f z m strip_def)
  have l: "length (year_lines (doc_metadata doc) [''creationDate'', ''modDate'']) \<le> 1"
    by (rule year_lines_length)
  from t f z l y n m p last_join_nl show ?thesis
    by (simp del: year_lines.simps)
qed

theorem empty_document_witness:
  "doc_pages empty_doc = [] \<and>
   extract_metadata empty_doc [] [] = Inr ''No arXiv ID detected.\<newline>Detected Open Access: No\<newline>''"
proof -
  have h: "doc_pages empty_doc = []" by (simp add: empty_doc_def)
  have n: "doc_metadata empty_doc ''creationDate'' = None \<and>
           doc_metadata empty_doc ''modDate'' = None" by (simp add: empty_doc_def)
  from empty_document [OF h] n h show ?thesis by (auto simp: nl_def)
qed

text \<open>
  The claim as it is worded, with only the two lines in the block, fails for a document
  without pages whose creation date holds a year.
\<close>

theorem empty_document_year_counterexample:
  "doc_pages dated_empty_doc = [] \<and>
   extract_metadata dated_empty_doc [] [] =
     Inr ''Detected Publication Year: 2021\<newline>No arXiv ID detected.\<newline>Detected Open Access: No\<newline>''"
  unfolding dated_empty_doc_def by code_simp

section \<open>The zones and the lines they hold\<close>

lemma slice_covers:
  "slice lo hi xs = map ((!) xs) [lo ..< min hi (length xs)] \<and>
   set [lo ..< min hi (length xs)] = covered lo hi xs"
proof
  show "slice lo hi xs = map ((!) xs) [lo ..< min hi (length xs)]"
  proof (rule nth_equalityI)
    show "length (slice lo hi xs) = length (map ((!) xs) [lo ..< min hi (length xs)])"
      by (auto simp: slice_def)
    fix i assume "i < length (slice lo hi xs)"
    then have i: "i < hi - lo" "i < length xs - lo" by (simp_all add: slice_def)
    then have "lo + i < min hi (length xs)" by arith
    then have "[lo ..< min hi (length xs)] ! i = lo + i" by (rule nth_upt)
    with i show "slice lo hi xs ! i = map ((!) xs) [lo ..< min hi (length xs)] ! i"
      by (simp add: slice_def)
  qed
  show "set [lo ..< min hi (length xs)] = covered lo hi xs"
    by (auto simp: covered_def)
qed

lemma abs_end_bound: "abs_end stripped a intro_idx \<le> length stripped"
proof -
  have "length stripped \<in> set (candidates stripped a intro_idx)"
    by (auto simp: candidates_def split: option.splits)
  then have "Min (set (candidates stripped a intro_idx)) \<le> length stripped"
    by (intro Min_le) simp_all
  moreover have "candidates stripped a intro_idx \<noteq> []"
    by (simp add: candidates_def split: option.splits)
  ultimately show ?thesis
    unfolding abs_end_def by (simp add: min_list_Min)
qed

lemma abstract_lines_shape:
  assumes "a < length stripped"
  shows "\<exists>inline. length inline \<le> 1 \<and>
           abstract_lines stripped (Some a) intro_idx =
             Inr (inline @ slice (a + 1) (abs_end stripped a intro_idx) stripped)"
proof (cases "re_match_group inline_prefix inline_group (stripped ! a)")
  case None
  with assms have "abstract_lines stripped (Some a) intro_idx =
      Inr ([] @ slice (a + 1) (abs_end stripped a intro_idx) stripped)"
    by (simp add: abstract_lines_def)
  then show ?thesis by (intro exI [of _ "[]"]) simp
next
  case (Some g)
  with assms have "abstract_lines stripped (Some a) intro_idx =
      Inr ([strip g] @ slice (a + 1) (abs_end stripped a intro_idx) stripped)"
    by (simp add: abstract_lines_def)
  then show ?thesis by (intro exI [of _ "[strip g]"]) simp
qed

text \<open>
  Claim C1, as the code has it. The zones \<open>pre_intro\<close>, \<open>main_body\<close> and \<open>end_matter\<close> are
  slices of the line sequence: the lines before \<open>pre_intro_stop\<close>, the lines from
  \<open>body_start\<close> up to \<open>body_end\<close>, and the lines after the end heading. The main body and
  the end matter never share a line, and the end heading line is in neither. Once an
  abstract or an introduction heading is found, the front matter and the main body share no
  line. When an abstract heading is found, its line is neither in the front matter nor among
  the lines of the abstract zone, which is at most one inline line followed by the lines
  from the one after the heading up to \<open>abs_end\<close>, and shares no line with the front
  matter; without an abstract heading the abstract zone is empty or the front matter itself.
\<close>

theorem zones_are_slices:
  assumes "\<forall>a. abstract_idx = Some a \<longrightarrow> a < length stripped"
  shows "\<exists>ab.
     extract_sections stripped abstract_idx intro_idx end_idx =
       Inr (slice 0 (pre_intro_stop abstract_idx intro_idx) stripped, ab,
            slice (body_start abstract_idx intro_idx) (body_end stripped end_idx) stripped,
            slice (end_matter_start stripped end_idx) (length stripped) stripped) \<and>
     covered (body_start abstract_idx intro_idx) (body_end stripped end_idx) stripped \<inter>
       covered (end_matter_start stripped end_idx) (length stripped) stripped = {} \<and>
     (abstract_idx \<noteq> None \<or> intro_idx \<noteq> None \<longrightarrow>
        covered 0 (pre_intro_stop abstract_idx intro_idx) stripped \<inter>
          covered (body_start abstract_idx intro_idx) (body_end stripped end_idx) stripped = {}) \<and>
     (\<forall>e. end_idx = Some e \<longrightarrow>
        e \<notin> covered (body_start abstract_idx intro_idx) (body_end stripped end_idx) stripped \<and>
        e \<notin> covered (end_matter_start stripped end_idx) (length stripped) stripped) \<and>
     (\<forall>a. abstract_idx = Some a \<longrightarrow>
        a \<notin> covered 0 (pre_intro_stop abstract_idx intro_idx) stripped \<and>
        a \<notin> covered (a + 1) (abs_end stripped a intro_idx) stripped \<and>
        covered 0 (pre_intro_stop abstract_idx intro_idx) stripped \<inter>
          covered (a + 1) (abs_end stripped a intro_idx) stripped = {} \<and>
        (\<exists>inline. length inline \<le> 1 \<and>
           ab = inline @ slice (a + 1) (abs_end stripped a intro_idx) stripped)) \<and>
     (abstract_idx = None \<longrightarrow>
        ab = [] \<or> ab = slice 0 (pre_intro_stop abstract_idx intro_idx) stripped)"
proof -
  from abstract_lines_total [OF assms] obtain ab
    where ab: "abstract_lines stripped abstract_idx intro_idx = Inr ab" by blast
  have z: "extract_sections stripped abstract_idx intro_idx end_idx =
       Inr (slice 0 (pre_intro_stop abstract_idx intro_idx) stripped, ab,
            slice (body_start abstract_idx intro_idx) (body_end stripped end_idx) stripped,
            slice (end_matter_start stripped end_idx) (length stripped) stripped)"
    by (simp add: extract_sections_def ab pre_intro_lines_def pre_intro_stop_def
        main_body_lines_def end_matter_lines_def end_matter_start_def slice_def
        split: option.splits)
  have be: "covered (body_start abstract_idx intro_idx) (body_end stripped end_idx) stripped \<inter>
       covered (end_matter_start stripped end_idx) (length stripped) stripped = {}"
    by (auto simp: covered_def body_end_def end_matter_start_def split: option.splits)
  have pb: "abstract_idx \<noteq> None \<or> intro_idx \<noteq> None \<longrightarrow>
        covered 0 (pre_intro_stop abstract_idx intro_idx) stripped \<inter>
          covered (body_start abstract_idx intro_idx) (body_end stripped end_idx) stripped = {}"
    by (auto simp: covered_def pre_intro_stop_def first_break_def body_start_def
        split: option.splits)
  have eh: "\<forall>e. end_idx = Some e \<longrightarrow>
        e \<notin> covered (body_start abstract_idx intro_idx) (body_end stripped end_idx) stripped \<and>
        e \<notin> covered (end_matter_start stripped end_idx) (length stripped) stripped"
    by (auto simp: covered_def body_end_def end_matter_start_def)
  have ah: "\<forall>a. abstract_idx = Some a \<longrightarrow>
        a \<notin> covered 0 (pre_intro_stop abstract_idx intro_idx) stripped \<and>
        a \<notin> covered (a + 1) (abs_end stripped a intro_idx) stripped \<and>
        covered 0 (pre_intro_stop abstract_idx intro_idx) stripped \<inter>
          covered (a + 1) (abs_end stripped a intro_idx) stripped = {} \<and>
        (\<exists>inline. length inline \<le> 1 \<and>
           ab = inline @ slice (a + 1) (abs_end stripped a intro_idx) stripped)"
  proof (intro allI impI)
    fix a assume a: "abstract_idx = Some a"
    with assms have "a < length stripped" by simp
    from abstract_lines_shape [OF this, of intro_idx] ab a
    have "\<exists>inline. length inline \<le> 1 \<and>
           ab = inline @ slice (a + 1) (abs_end stripped a intro_idx) stripped"
      by auto
    moreover have "a \<notin> covered 0 (pre_intro_stop abstract_idx intro_idx) stripped"
      "a \<notin> covered (a + 1) (abs_end stripped a intro_idx) stripped"
      "covered 0 (pre_intro_stop abstract_idx intro_idx) stripped \<inter>
          covered (a + 1) (abs_end stripped a intro_idx) stripped = {}"
      using a by (auto simp: covered_def pre_intro_stop_def first_break_def split: option.splits)
    ultimately show "a \<notin> covered 0 (pre_intro_stop abstract_idx intro_idx) stripped \<and>
        a \<notin> covered (a + 1) (abs_end stripped a intro_idx) stripped \<and>
        covered 0 (pre_intro_stop abstract_idx intro_idx) stripped \<inter>
          covered (a + 1) (abs_end stripped a intro_idx) stripped = {} \<and>
        (\<exists>inline. length inline \<le> 1 \<and>
           ab = inline @ slice (a + 1) (abs_end stripped a intro_idx) stripped)"
      by blast
  qed
  have an: "abstract_idx = None \<longrightarrow>
        ab = [] \<or> ab = slice 0 (pre_intro_stop abstract_idx intro_idx) stripped"
    using ab by (auto simp: abstract_lines_def pre_intro_stop_def first_break_def slice_def
        split: option.splits if_splits)
  from z be pb eh ah an show ?thesis by blast
qed

theorem zones_are_slices_witness:
  "\<exists>ab. extract_sections [''Title'', ''Abstract'', ''text'', ''Introduction'', ''body'', ''References'', ''cite'']
            (Some 1) (Some 3) (Some 5) =
          Inr ([''Title''], ab, [''Introduction'', ''body''], [''cite'']) \<and>
        (\<exists>inline. length inline \<le> 1 \<and> ab = inline @ [''text''])"
proof -
  let ?L = "[''Title'', ''Abstract'', ''text'', ''Introduction'', ''body'', ''References'', ''cite'']"
  have h: "\<forall>a. Some (1::nat) = Some a \<longrightarrow> a < length ?L"
    by simp
  have e: "abs_end ?L 1 (Some 3) = 3"
    by code_simp
  from zones_are_slices [OF h, of "Some 3" "Some 5"] obtain ab
    where z: "extract_sections ?L (Some 1) (Some 3) (Some 5) =
       Inr (slice 0 (pre_intro_stop (Some 1) (Some 3)) ?L, ab,
            slice (body_start (Some 1) (Some 3)) (body_end ?L (Some 5)) ?L,
            slice (end_matter_start ?L (Some 5)) (length ?L) ?L)"
      and i: "\<exists>inline. length inline \<le> 1 \<and> ab = inline @ slice (1 + 1) (abs_end ?L 1 (Some 3)) ?L"
    by blast
  have s: "slice 0 (pre_intro_stop (Some 1) (Some 3)) ?L = [''Title'']"
    "slice (body_start (Some 1) (Some 3)) (body_end ?L (Some 5)) ?L = [''Introduction'', ''body'']"
    "slice (end_matter_start ?L (Some 5)) (length ?L) ?L = [''cite'']"
    "slice (1 + 1) 3 ?L = [''text'']"
    by (simp_all add: slice_def pre_intro_stop_def first_break_def body_start_def body_end_def
        end_matter_start_def)
  from z i show ?thesis unfolding e s by blast
qed

text \<open>
  The claim as it is worded fails both ways. In the scenario of the specification the
  heading lines \<open>Abstract\<close> and \<open>References\<close> are in no zone, and the two abstract lines
  are in neither the front matter nor the main body. With no heading at all every line is
  both in the front matter and in the main body.
\<close>

theorem zones_partition_counterexample:
  "extract_sections
     [''Abstract'', ''Line one'', ''Line two'', ''Introduction'', ''Body text'', ''References'', ''Cite 1'']
     (Some 0) (Some 3) (Some 5) =
     Inr ([], [''Line one'', ''Line two''], [''Introduction'', ''Body text''], [''Cite 1'']) \<and>
   extract_sections [''first'', ''second''] None None None =
     Inr ([''first'', ''second''], [], [''first'', ''second''], [])"
  by code_simp

text \<open>
  Claim C2 at a heading with a colon. The abstract patterns find the heading
  \<open>Abstract: We study X.\<close>, the inline pattern does not match it, since a colon is not
  among its separators, and the text after the colon is in no zone.
\<close>

theorem inline_colon_text_dropped:
  "find_index abstract_patterns [''Abstract: We study X.'', ''Second line'', ''Introduction'', ''Body''] = Some 0 \<and>
   extract_sections [''Abstract: We study X.'', ''Second line'', ''Introduction'', ''Body'']
     (Some 0) (Some 2) None =
     Inr ([], [''Second line''], [''Introduction'', ''Body''], [])"
  by code_simp

section \<open>The heading scan after the abstract\<close>

text \<open>
  The three \<open>numbered_patterns\<close> each ask for a letter of \<^verbatim>\<open>[A-Z]\<close>, and \<open>find_index\<close>
  tries a pattern on the lowercased line and on its normalized form only. So the last-resort
  scan finds no line in any document, and the abstract then runs to the next
  keywords line, the next introduction heading or the end of the document.
\<close>

lemma lower_char_not_upper: "\<not> isupper_az (lower_char c)"
  by (auto simp: lower_char_def isupper_az_def Let_def)

lemma lower_no_upper: "c \<in> set (lower s) \<Longrightarrow> \<not> isupper_az c"
  by (auto simp: lower_def lower_char_not_upper)

lemma normalized_no_upper: "c \<in> set (re_sub_eq_space (lower s)) \<Longrightarrow> \<not> isupper_az c"
  by (auto simp: re_sub_eq_space_def lower_no_upper)

lemma ends_Cls_none: "(\<And>c. c \<in> set s \<Longrightarrow> \<not> p c) \<Longrightarrow> ends (Cls p) s i = []"
  by auto

lemma ends_Seq_left: "ends a s i = [] \<Longrightarrow> ends (Seq a b) s i = []"
  by simp

lemma ends_Seq_right: "(\<And>j. ends b s j = []) \<Longrightarrow> ends (Seq a b) s i = []"
  by simp

lemma upper_needed:
  assumes "\<And>c. c \<in> set s \<Longrightarrow> \<not> isupper_az c"
  shows "ends (Seq (Cls isupper_az) r) s i = []"
  by (rule ends_Seq_left, rule ends_Cls_none, rule assms)

lemma numbered_patterns_need_upper:
  assumes p: "pat \<in> set numbered_patterns" and s: "\<And>c. c \<in> set s \<Longrightarrow> \<not> isupper_az c"
  shows "ends pat s i = []"
proof -
  note u = upper_needed [of s, OF s]
  from p consider
      "pat = Seq Bol (Seq (plus isdigit) (Seq (star isspace) (Seq (Opt (Cls (one_of ''.)'')))
               (Seq (plus isspace) (Seq (Cls isupper_az) (Seq (star anychar) Eps))))))"
    | "pat = Seq Bol (Seq (plus (one_of ''ivxlcdm'')) (Seq (star isspace) (Seq (Opt (Cls (one_of ''.)'')))
               (Seq (plus isspace) (Seq (Cls isupper_az) (Seq (star anychar) Eps))))))"
    | "pat = Seq Bol (Seq (Cls isupper_az)
               (Seq (Rep (\<lambda>c. isupper_az c \<or> isspace c) 3 None) (Seq Eol Eps)))"
    by (auto simp: numbered_patterns_def seqs_def)
  then show ?thesis
  proof cases
    case 1
    show ?thesis unfolding 1
      by (intro ends_Seq_right [of "Seq (plus isdigit) _"] ends_Seq_right [of "Seq (star isspace) _"]
          ends_Seq_right [of "Seq (Opt _) _"] ends_Seq_right [of "Seq (plus isspace) _"]
          ends_Seq_right [of "Seq (Cls isupper_az) _"] u)
  next
    case 2
    show ?thesis unfolding 2
      by (intro ends_Seq_right [of "Seq (plus (one_of ''ivxlcdm'')) _"] ends_Seq_right [of "Seq (star isspace) _"]
          ends_Seq_right [of "Seq (Opt _) _"] ends_Seq_right [of "Seq (plus isspace) _"]
          ends_Seq_right [of "Seq (Cls isupper_az) _"] u)
  next
    case 3
    show ?thesis unfolding 3
      by (intro ends_Seq_right [of "Seq (Cls isupper_az) _"] u)
  qed
qed

lemma numbered_patterns_hit_nothing: "\<not> hits numbered_patterns ln"
proof -
  have "ends pat (lower ln) 0 = []" if "pat \<in> set numbered_patterns" for pat
    using that by (rule numbered_patterns_need_upper) (rule lower_no_upper)
  moreover have "ends pat (re_sub_eq_space (lower ln)) 0 = []"
    if "pat \<in> set numbered_patterns" for pat
    using that by (rule numbered_patterns_need_upper) (rule normalized_no_upper)
  ultimately show ?thesis unfolding hits_def re_match_def by blast
qed

lemma numbered_scan_never_matches:
  "first_after stripped a numbered_patterns = None \<and> numbered_after stripped a intro_idx = None"
proof -
  have "find_index numbered_patterns (drop (a + 1) stripped) = None"
    unfolding find_index_def find_index_from_None by (simp add: numbered_patterns_hit_nothing)
  then show ?thesis by (simp add: first_after_def numbered_after_def)
qed

end
